theory Spec2Isabelle
  imports Complex_Main "HOL-Library.Sublist"
begin

section \<open>Product search: fuzzy filter and response formatter of \<open>index.js\<close>\<close>

text \<open>
  The development embeds four functions of \<open>src/index.js\<close>:
  \<open>levenshteinDistance\<close>, \<open>calculateSimilarity\<close>, \<open>filterProductsWithFuzzy\<close> and
  \<open>formatProductResponse\<close>.

  Conventions of the embedding.
  \<^item> A JavaScript string is a \<open>string\<close> (a list of characters). The inputs are taken to be
    ASCII text, where \<open>length\<close> is the JavaScript \<open>.length\<close>; the three non-ASCII
    markers that the formatter emits are written as their UTF-8 bytes.
  \<^item> An argument that the code tests with \<open>Array.isArray\<close> is a value of type
    \<open>'a arg\<close>: either an array or anything else.
  \<^item> A product always has a \<open>title\<close> (the filter would raise on a product without
    one); the other fields are optional as in the code.
  \<^item> \<open>console.log\<close> output is not part of the model, with one exception: the list
    \<open>matchedWords\<close>, which the filter callback computes only to log it, is returned
    next to the match decision.
\<close>

subsection \<open>Strings\<close>

text \<open>\<open>String.prototype.toLowerCase\<close> on ASCII text.\<close>

definition lower_char :: "char \<Rightarrow> char" where
  "lower_char c =
     (let n = (of_char c :: nat) in if 65 \<le> n \<and> n \<le> 90 then char_of (n + 32) else c)"

definition toLowerCase :: "string \<Rightarrow> string" where
  "toLowerCase s = map lower_char s"

text \<open>\<open>hay.includes(needle)\<close>: the needle occurs in the haystack as a contiguous run.\<close>

fun str_includes :: "string \<Rightarrow> string \<Rightarrow> bool" where
  "str_includes [] needle = (needle = [])"
| "str_includes (c # cs) needle = (prefix needle (c # cs) \<or> str_includes cs needle)"

text \<open>
  \<open>s.substring(a, b)\<close> for non-negative integer arguments: both are clamped to the
  length and swapped when out of order.
\<close>

definition substring :: "string \<Rightarrow> nat \<Rightarrow> nat \<Rightarrow> string" where
  "substring s a b =
     (let a' = min a (length s); b' = min b (length s);
          lo = min a' b'; hi = max a' b'
      in take (hi - lo) (drop lo s))"

text \<open>\<open>s.split(' ')\<close>: the separator is the single space character; the pieces may be empty.\<close>

fun split_space :: "string \<Rightarrow> string list" where
  "split_space [] = [[]]"
| "split_space (c # cs) =
     (if c = CHR '' '' then [] # split_space cs
      else (let r = split_space cs in (c # hd r) # tl r))"

text \<open>\<open>s.charAt(i)\<close>: the character at \<open>i\<close>, or the empty string (\<open>None\<close>) out of range.\<close>

definition charAt :: "string \<Rightarrow> nat \<Rightarrow> char option" where
  "charAt s i = (if i < length s then Some (s ! i) else None)"

text \<open>Decimal rendering of a non-negative integer, as a template literal does.\<close>

definition digit_char :: "nat \<Rightarrow> char" where
  "digit_char d = char_of (48 + d)"

fun show_nat :: "nat \<Rightarrow> string" where
  "show_nat n = (if n < 10 then [digit_char n] else show_nat (n div 10) @ [digit_char (n mod 10)])"

declare show_nat.simps [simp del]

subsection \<open>Double-precision products under \<open>Math.floor\<close>\<close>

text \<open>
  The window lengths are \<open>Math.floor(wordLength * 0.7)\<close>, \<open>Math.floor(wordLength * 0.6)\<close>
  and \<open>Math.floor(wordLength * 0.4)\<close>. The constants are IEEE doubles, not the decimal
  fractions:
  \<open>0.7 = 6305039478318694 / 2^53\<close>, \<open>0.6 = 5404319552844595 / 2^53\<close>,
  \<open>0.4 = 7205759403792794 / 2^54\<close>,
  and the product is rounded to 53 significant bits (to nearest, ties to even) before
  \<open>Math.floor\<close> sees it. The rounding is visible: \<open>Math.floor(90 * 0.7)\<close> is 62.

  \<open>round53 N\<close> rounds the natural number \<open>N\<close> to 53 significant bits; the value of the
  double product \<open>n * (m / 2^k)\<close> is \<open>round53 (n * m) / 2^k\<close>.
\<close>

fun excess_bits :: "nat \<Rightarrow> nat" where
  "excess_bits N = (if N < 2 ^ 53 then 0 else Suc (excess_bits (N div 2)))"

declare excess_bits.simps [simp del]

definition round53 :: "nat \<Rightarrow> nat" where
  "round53 N =
     (let e = excess_bits N; q = N div 2 ^ e; r = N mod 2 ^ e
      in if 2 ^ e < 2 * r \<or> (2 * r = 2 ^ e \<and> odd q) then (q + 1) * 2 ^ e else q * 2 ^ e)"

definition floor_mul_07 :: "nat \<Rightarrow> nat" where
  "floor_mul_07 n = round53 (n * 6305039478318694) div 2 ^ 53"

definition floor_mul_06 :: "nat \<Rightarrow> nat" where
  "floor_mul_06 n = round53 (n * 5404319552844595) div 2 ^ 53"

definition floor_mul_04 :: "nat \<Rightarrow> nat" where
  "floor_mul_04 n = round53 (n * 7205759403792794) div 2 ^ 54"

subsection \<open>\<open>levenshteinDistance\<close>\<close>

text \<open>
  The matrix is an array of rows. \<open>matrix[i] = [i]\<close> and \<open>matrix[i][j] = v\<close> write at an
  index that is inside the array or exactly one past its end, where JavaScript extends
  the array by the new element; \<open>put\<close> does both. (A write further out would leave holes;
  \<open>put\<close> fills them with the given filler, and no loop below writes there.)
\<close>

definition put :: "'a \<Rightarrow> 'a list \<Rightarrow> nat \<Rightarrow> 'a \<Rightarrow> 'a list" where
  "put filler xs i v =
     (if i < length xs then xs[i := v] else xs @ replicate (i - length xs) filler @ [v])"

definition set_cell :: "nat list list \<Rightarrow> nat \<Rightarrow> nat \<Rightarrow> nat \<Rightarrow> nat list list" where
  "set_cell matrix i j v = matrix[i := put 0 (matrix ! i) j v]"

text \<open>The body of the inner loop: one cell from its three neighbours.\<close>

definition cell_step :: "string \<Rightarrow> string \<Rightarrow> nat \<Rightarrow> nat \<Rightarrow> nat list list \<Rightarrow> nat list list" where
  "cell_step str1 str2 i j matrix =
     (if charAt str2 (i - 1) = charAt str1 (j - 1)
      then set_cell matrix i j (matrix ! (i - 1) ! (j - 1))
      else set_cell matrix i j
             (min (matrix ! (i - 1) ! (j - 1) + 1)
                  (min (matrix ! i ! (j - 1) + 1) (matrix ! (i - 1) ! j + 1))))"

definition init_rows :: "string \<Rightarrow> nat list list" where
  "init_rows str2 = fold (\<lambda>i matrix. put [] matrix i [i]) [0..<Suc (length str2)] []"

definition init_first_row :: "string \<Rightarrow> nat list list \<Rightarrow> nat list list" where
  "init_first_row str1 matrix = fold (\<lambda>j m. set_cell m 0 j j) [0..<Suc (length str1)] matrix"

definition fill_row :: "string \<Rightarrow> string \<Rightarrow> nat \<Rightarrow> nat list list \<Rightarrow> nat list list" where
  "fill_row str1 str2 i matrix = fold (cell_step str1 str2 i) [1..<Suc (length str1)] matrix"

definition fill_matrix :: "string \<Rightarrow> string \<Rightarrow> nat list list \<Rightarrow> nat list list" where
  "fill_matrix str1 str2 matrix = fold (fill_row str1 str2) [1..<Suc (length str2)] matrix"

definition levenshteinDistance :: "string \<Rightarrow> string \<Rightarrow> nat" where
  "levenshteinDistance str1 str2 =
     fill_matrix str1 str2 (init_first_row str1 (init_rows str2)) ! length str2 ! length str1"

text \<open>
  The edit distance between the first \<open>i\<close> characters of \<open>str2\<close> and the first \<open>j\<close>
  characters of \<open>str1\<close>, by the recurrence that the matrix tabulates.
\<close>

fun prefix_distance :: "string \<Rightarrow> string \<Rightarrow> nat \<Rightarrow> nat \<Rightarrow> nat" where
  "prefix_distance str1 str2 0 j = j"
| "prefix_distance str1 str2 (Suc i) 0 = Suc i"
| "prefix_distance str1 str2 (Suc i) (Suc j) =
     (if charAt str2 i = charAt str1 j then prefix_distance str1 str2 i j
      else min (prefix_distance str1 str2 i j + 1)
               (min (prefix_distance str1 str2 (Suc i) j + 1)
                    (prefix_distance str1 str2 i (Suc j) + 1)))"

subsection \<open>\<open>calculateSimilarity\<close>\<close>

text \<open>
  The quotient is a double in the code and a rational here. The two operands are exact
  integers, so only the last division rounds, and the test \<open>similarity >= 0.6\<close> gives the
  same answer on the rounded and on the exact quotient for every string shorter than
  \<open>2^51\<close> characters.
\<close>

definition FUZZY_THRESHOLD :: rat where
  "FUZZY_THRESHOLD = 6 / 10"

definition calculateSimilarity :: "string \<Rightarrow> string \<Rightarrow> rat" where
  "calculateSimilarity str1 str2 =
     (let longer = (if length str1 > length str2 then str1 else str2);
          shorter = (if length str1 > length str2 then str2 else str1)
      in if length longer = 0 then 1
         else (let distance = levenshteinDistance longer shorter
               in (of_nat (length longer) - of_nat distance) / of_nat (length longer)))"

subsection \<open>Arguments, products and variants\<close>

text \<open>An argument as \<open>Array.isArray\<close> sees it.\<close>

datatype 'a arg = NotArray | Arr "'a list"

text \<open>
  A variant and a product as \<open>fetchAllProductsFromMySQL\<close> builds them. An optional field
  is \<open>None\<close> when the value is \<open>null\<close> or \<open>undefined\<close>. The price is a value of a type
  \<open>'p\<close> that the embedding leaves open (a number or the text of a DECIMAL column); \<open>None\<close>
  stands for every falsy price, and the rendering \<open>parseFloat(price).toFixed(2)\<close> is a
  parameter \<open>toFixed2\<close> of the formatter.
\<close>

record 'p variant =
  variant_title :: "string option"
  price :: "'p option"
  inventory_quantity :: int
  available_for_sale :: bool

record 'p product =
  product_id :: string
  title :: string
  description :: "string option"
  tags :: "string option"
  image :: "string option"
  imageAlt :: "string option"
  variants :: "'p variant list option"

subsection \<open>\<open>filterProductsWithFuzzy\<close>\<close>

text \<open>The indices \<open>i = 0, 1, ...\<close> of a loop \<open>for (let i = 0; i <= k; i++)\<close>.\<close>

definition loop_indices :: "int \<Rightarrow> nat list" where
  "loop_indices k = [0..<nat (k + 1)]"

text \<open>\<open>searchText\<close>: the lowercased title, a space, the lowercased description if any.\<close>

definition searchText :: "('p, 'z) product_scheme \<Rightarrow> string" where
  "searchText p =
     toLowerCase (title p) @ '' '' @
     (case description p of
        None \<Rightarrow> []
      | Some d \<Rightarrow> (if d = [] then [] else toLowerCase d))"

text \<open>
  The callback of \<open>searchWords.some\<close>: the match decision for one word. Each loop returns
  \<open>true\<close> at the first index that passes its test, so it is \<open>list_ex\<close> of the test.
\<close>

definition decisionMatch :: "string \<Rightarrow> string \<Rightarrow> bool" where
  "decisionMatch haystack word =
     (if str_includes haystack word then True
      else
        (let wordLength = length word in
         if wordLength > 5 then
           (let minSubstringLength = max 5 (floor_mul_07 wordLength) in
            if list_ex (\<lambda>i. str_includes haystack (substring word i (i + minSubstringLength)))
                 (loop_indices (int wordLength - int minSubstringLength))
            then True
            else if wordLength > 4 then
              list_ex (\<lambda>searchWord. length searchWord > 3 \<and>
                         calculateSimilarity word searchWord \<ge> FUZZY_THRESHOLD)
                (split_space haystack)
            else False)
         else False))"

text \<open>The callback of \<open>searchWords.filter\<close> that recomputes \<open>matchedWords\<close> for the log.\<close>

definition diagnosticMatch :: "string \<Rightarrow> string \<Rightarrow> bool" where
  "diagnosticMatch haystack word =
     (if str_includes haystack word then True
      else
        (let wordLength = length word in
         if wordLength > 3 then
           (let minSubstringLength = max 3 (floor_mul_06 wordLength) in
            if list_ex (\<lambda>i. str_includes haystack (substring word i (i + minSubstringLength)))
                 (loop_indices (int wordLength - int (floor_mul_04 wordLength)))
            then True
            else
              list_ex (\<lambda>searchWord. length searchWord > 3 \<and>
                         calculateSimilarity word searchWord \<ge> FUZZY_THRESHOLD)
                (split_space haystack))
         else False))"

text \<open>
  The callback of \<open>products.filter\<close>: the decision \<open>hasMatch\<close>, and the logged
  \<open>matchedWords\<close> when the decision is positive.
\<close>

definition matchProduct :: "('p, 'z) product_scheme \<Rightarrow> string list \<Rightarrow> bool \<times> string list option" where
  "matchProduct p searchWords =
     (let haystack = searchText p;
          hasMatch = list_ex (decisionMatch haystack) searchWords
      in (hasMatch,
          if hasMatch then Some (filter (diagnosticMatch haystack) searchWords) else None))"

definition filterProductsWithFuzzy ::
  "('p, 'z) product_scheme arg \<Rightarrow> string arg \<Rightarrow> ('p, 'z) product_scheme list" where
  "filterProductsWithFuzzy products searchWords =
     (case products of
        NotArray \<Rightarrow> []
      | Arr ps \<Rightarrow>
          (case searchWords of
             NotArray \<Rightarrow> take 20 ps
           | Arr ws \<Rightarrow>
               (if length ws = 0 then take 20 ps
                else filter (\<lambda>p. fst (matchProduct p ws)) ps)))"

subsection \<open>The search words of the webhook handler\<close>

text \<open>
  The only caller of the filter is the webhook handler, through \<open>queryMySQLProducts\<close>.
  It builds the token list from the corrected query text:
  \<open>correctedText.toLowerCase().split(' ').filter(word => word.length > 2)\<close>.
  \<open>dropShortWords\<close> is the last step, the length test on the tokens; \<open>searchWordsOf\<close> is
  the whole expression, the list that the handler names \<open>words\<close>.
\<close>

definition dropShortWords :: "string list \<Rightarrow> string list" where
  "dropShortWords tokens = filter (\<lambda>word. length word > 2) tokens"

definition searchWordsOf :: "string \<Rightarrow> string list" where
  "searchWordsOf correctedText = dropShortWords (split_space (toLowerCase correctedText))"

subsection \<open>\<open>formatProductResponse\<close>\<close>

definition newline :: string where
  "newline = [CHR 0x0A]"

definition quote_mark :: string where
  "quote_mark = [CHR 0x22]"

text \<open>The markers U+1F48E, U+1F5BC U+FE0F and U+2022, in UTF-8.\<close>

definition gem_marker :: string where
  "gem_marker = [CHR 0xF0, CHR 0x9F, CHR 0x92, CHR 0x8E]"

definition frame_marker :: string where
  "frame_marker = [CHR 0xF0, CHR 0x9F, CHR 0x96, CHR 0xBC, CHR 0xEF, CHR 0xB8, CHR 0x8F]"

definition bullet_marker :: string where
  "bullet_marker = [CHR 0xE2, CHR 0x80, CHR 0xA2]"

definition call_to_action :: string where
  "call_to_action =
     ''Would you like more details about any of these products, or shall I help you with something else?''"

text \<open>\<open>searchWords.join(', ')\<close>.\<close>

fun join_comma :: "string list \<Rightarrow> string" where
  "join_comma [] = []"
| "join_comma [w] = w"
| "join_comma (w # v # ws) = w @ '', '' @ join_comma (v # ws)"

definition notFoundMessage :: "string arg \<Rightarrow> string" where
  "notFoundMessage searchWords =
     (let shown = (case searchWords of Arr ws \<Rightarrow> join_comma ws | NotArray \<Rightarrow> ''your search'')
      in ''I couldn'' @ [CHR 0x27] @ ''t find any products matching '' @ quote_mark @ shown @
         quote_mark @
         ''. Please try different keywords or ask me to show you our available gemstone beads and jewelry supplies.'')"

text \<open>The body of \<open>variants.forEach\<close>: one line appended to the response.\<close>

definition formatVariant :: "('p \<Rightarrow> string) \<Rightarrow> ('p, 'y) variant_scheme \<Rightarrow> string \<Rightarrow> string" where
  "formatVariant toFixed2 variant response =
     (let priceText = (case price variant of
                         Some x \<Rightarrow> ''$'' @ toFixed2 x
                       | None \<Rightarrow> ''Price on request'');
          inventory = (if inventory_quantity variant > 0
                       then ''(In Stock - '' @ show_nat (nat (inventory_quantity variant)) @ '' left)''
                       else ''(Out of Stock)'');
          label = (case variant_title variant of
                     None \<Rightarrow> ''Standard''
                   | Some t \<Rightarrow> (if t = [] then ''Standard'' else t))
      in response @ ''   '' @ bullet_marker @ '' '' @ label @ '': '' @ priceText @ '' '' @
         inventory @ newline)"

text \<open>The body of \<open>products.slice(0, 20).forEach\<close>: one product block appended.\<close>

definition formatProduct :: "('p \<Rightarrow> string) \<Rightarrow> 'p product \<Rightarrow> string \<Rightarrow> string" where
  "formatProduct toFixed2 product response =
     (let r1 = response @ gem_marker @ '' '' @ title product @ newline;
          r2 = (case image product of
                  None \<Rightarrow> r1
                | Some img \<Rightarrow> (if img = [] then r1
                               else r1 @ frame_marker @ '' '' @ img @ newline));
          r3 = (case variants product of
                  None \<Rightarrow> r2
                | Some vs \<Rightarrow> (if length vs > 0
                              then fold (formatVariant toFixed2) (take 3 vs) r2
                              else r2))
      in r3 @ newline)"

definition formatProductResponse ::
  "('p \<Rightarrow> string) \<Rightarrow> 'p product arg \<Rightarrow> string arg \<Rightarrow> string" where
  "formatProductResponse toFixed2 products searchWords =
     (case products of
        NotArray \<Rightarrow> notFoundMessage searchWords
      | Arr ps \<Rightarrow>
          (if length ps = 0 then notFoundMessage searchWords
           else
             (let r0 = ''Found '' @ show_nat (length ps) @ '' product(s) for you:'' @ newline @ newline;
                  r1 = fold (formatProduct toFixed2) (take 20 ps) r0;
                  r2 = (if length ps > 20
                        then r1 @ ''... and '' @ show_nat (length ps - 20) @
                             '' more products available!'' @ newline
                        else r1)
              in r2 @ call_to_action)))"

subsection \<open>The tabulated matrix and the rendered blocks, in closed form\<close>

text \<open>
  The matrix after the rows \<open>0..k\<close> have been filled: those rows hold the prefix
  distances, the later rows still hold their first cell only.
\<close>

definition partial_matrix :: "string \<Rightarrow> string \<Rightarrow> nat \<Rightarrow> nat list list" where
  "partial_matrix str1 str2 k =
     map (\<lambda>r. if r \<le> k then map (prefix_distance str1 str2 r) [0..<Suc (length str1)] else [r])
       [0..<Suc (length str2)]"

text \<open>
  The display format in the words of the specification: the line of one variant, and the
  block of one product with at most its first three variants.
\<close>

definition variant_line :: "('p \<Rightarrow> string) \<Rightarrow> ('p, 'y) variant_scheme \<Rightarrow> string" where
  "variant_line toFixed2 v =
     ''   '' @ bullet_marker @ '' '' @
     (case variant_title v of None \<Rightarrow> ''Standard'' | Some t \<Rightarrow> (if t = [] then ''Standard'' else t)) @
     '': '' @
     (case price v of None \<Rightarrow> ''Price on request'' | Some x \<Rightarrow> ''$'' @ toFixed2 x) @
     '' '' @
     (if 0 < inventory_quantity v
      then ''(In Stock - '' @ show_nat (nat (inventory_quantity v)) @ '' left)''
      else ''(Out of Stock)'') @
     newline"

definition product_block :: "('p \<Rightarrow> string) \<Rightarrow> 'p product \<Rightarrow> string" where
  "product_block toFixed2 p =
     gem_marker @ '' '' @ title p @ newline @
     (case image p of
        None \<Rightarrow> []
      | Some img \<Rightarrow> (if img = [] then [] else frame_marker @ '' '' @ img @ newline)) @
     concat (map (variant_line toFixed2) (take 3 (case variants p of None \<Rightarrow> [] | Some vs \<Rightarrow> vs))) @
     newline"

subsection \<open>A small catalogue for the concrete instances\<close>

text \<open>
  The prices of the examples are the text of a DECIMAL(10,2) column, which
  \<open>parseFloat(price).toFixed(2)\<close> reproduces.
\<close>

definition decimal_column_text :: "string \<Rightarrow> string" where
  "decimal_column_text s = s"

definition ruby_variant :: "string variant" where
  "ruby_variant = \<lparr>variant_title = None, price = Some ''12.50'', inventory_quantity = 5,
     available_for_sale = True\<rparr>"

definition ruby_gemstone :: "string product" where
  "ruby_gemstone = \<lparr>product_id = ''1'', title = ''Ruby Gemstone'', description = None,
     tags = None, image = None, imageAlt = None, variants = Some [ruby_variant]\<rparr>"

definition amethyst_beads :: "string product" where
  "amethyst_beads = \<lparr>product_id = ''2'', title = ''Amethyst Round Beads'', description = None,
     tags = None, image = None, imageAlt = None, variants = Some []\<rparr>"

section \<open>Strings: auxiliary facts\<close>

lemma str_includes_sublist: "str_includes hay needle \<longleftrightarrow> sublist needle hay"
  by (induction hay) (simp_all add: sublist_Cons_right)

lemma substring_window: "substring w i (i + m) = take m (drop i w)"
  by (cases "i \<le> length w") (simp_all add: substring_def Let_def min_def max_def)

lemma str_includes_shorter_window:
  assumes "str_includes t (take m1 xs)" and "m2 \<le> m1"
  shows "str_includes t (take m2 xs)"
proof -
  have "take m2 xs = take m2 (take m1 xs)" using assms(2) by (simp add: min_def)
  then have "prefix (take m2 xs) (take m1 xs)" by (metis take_is_prefix)
  then have "sublist (take m2 xs) (take m1 xs)" by (rule prefix_imp_sublist)
  moreover have "sublist (take m1 xs) t" using assms(1) by (simp only: str_includes_sublist)
  ultimately have "sublist (take m2 xs) t" by (rule sublist_order.order_trans)
  then show ?thesis by (simp only: str_includes_sublist)
qed

lemma loop_indices_iff: "i \<in> set (loop_indices k) \<longleftrightarrow> int i \<le> k"
  by (auto simp: loop_indices_def)

lemma map_upt_Suc_nth: "k \<le> n \<Longrightarrow> map f [0..<Suc n] ! k = f k"
  using nth_map_upt [of k "Suc n" 0 f] by simp

lemma subseq_take_self: "subseq (take n xs) xs"
  by (metis prefix_imp_subseq take_is_prefix)

section \<open>The rounded products\<close>

lemma excess_bits_zero: "N < 2 ^ 53 \<Longrightarrow> excess_bits N = 0"
  by (simp add: excess_bits.simps)

lemma excess_bits_bound: "2 ^ 53 \<le> N \<Longrightarrow> 2 ^ excess_bits N * 2 ^ 52 \<le> N"
proof (induction N rule: excess_bits.induct)
  case (1 N)
  have e: "excess_bits N = Suc (excess_bits (N div 2))"
    using "1.prems" by (subst excess_bits.simps) simp
  show ?case
  proof (cases "N div 2 < 2 ^ 53")
    case True
    then have "excess_bits (N div 2) = 0" by (rule excess_bits_zero)
    then show ?thesis using "1.prems" e by simp
  next
    case False
    then have "2 ^ excess_bits (N div 2) * 2 ^ 52 \<le> N div 2"
      using "1.IH" "1.prems" by simp
    then have "2 * (2 ^ excess_bits (N div 2) * 2 ^ 52) \<le> N" by linarith
    then show ?thesis by (simp add: e)
  qed
qed

lemma round53_small: "N < 2 ^ 53 \<Longrightarrow> round53 N = N"
  by (simp add: round53_def excess_bits_zero)

lemma round53_window:
  "round53 N \<le> N + 2 ^ excess_bits N \<and> N \<le> round53 N + 2 ^ excess_bits N"
proof -
  let ?e = "excess_bits N"
  have d: "N = N div 2 ^ ?e * 2 ^ ?e + N mod 2 ^ ?e" by (rule div_mult_mod_eq [symmetric])
  have m: "N mod 2 ^ ?e < 2 ^ ?e" by simp
  have "round53 N = N div 2 ^ ?e * 2 ^ ?e \<or> round53 N = N div 2 ^ ?e * 2 ^ ?e + 2 ^ ?e"
    by (simp add: round53_def Let_def)
  then show ?thesis using d m by linarith
qed

text \<open>The relative error of the rounding is below \<open>2^-52\<close>.\<close>

lemma round53_error:
  "round53 N \<le> N + N div 2 ^ 52 \<and> N \<le> round53 N + N div 2 ^ 52"
proof (cases "N < 2 ^ 53")
  case True
  then show ?thesis by (simp add: round53_small)
next
  case False
  then have "2 ^ 53 \<le> N" by (simp only: not_less)
  then have "2 ^ excess_bits N * 2 ^ 52 \<le> N" by (rule excess_bits_bound)
  then have "2 ^ excess_bits N \<le> N div 2 ^ 52"
    by (simp add: less_eq_div_iff_mult_less_eq)
  then show ?thesis using round53_window [of N] by linarith
qed

lemma floor_mul_06_le_07: "floor_mul_06 n \<le> floor_mul_07 n"
proof -
  have a: "round53 (n * 5404319552844595) \<le> n * 5404319552844595 + n * 5404319552844595 div 2 ^ 52"
    using round53_error by blast
  have b: "n * 6305039478318694 \<le> round53 (n * 6305039478318694) + n * 6305039478318694 div 2 ^ 52"
    using round53_error by blast
  have c: "n * 5404319552844595 div 2 ^ 52 \<le> 2 * n" by simp
  have d: "n * 6305039478318694 div 2 ^ 52 \<le> 2 * n" by simp
  have "round53 (n * 5404319552844595) \<le> round53 (n * 6305039478318694)"
    using a b c d by linarith
  then show ?thesis unfolding floor_mul_06_def floor_mul_07_def by (rule div_le_mono)
qed

lemma floor_mul_04_le_07: "floor_mul_04 n \<le> floor_mul_07 n"
proof -
  have a: "round53 (n * 7205759403792794) \<le> n * 7205759403792794 + n * 7205759403792794 div 2 ^ 52"
    using round53_error by blast
  have b: "n * 6305039478318694 \<le> round53 (n * 6305039478318694) + n * 6305039478318694 div 2 ^ 52"
    using round53_error by blast
  have c: "n * 7205759403792794 div 2 ^ 52 \<le> 2 * n" by simp
  have d: "n * 6305039478318694 div 2 ^ 52 \<le> 2 * n" by simp
  have "round53 (n * 7205759403792794) \<le> 2 * round53 (n * 6305039478318694)"
    using a b c d by linarith
  then have "round53 (n * 7205759403792794) div 2 ^ 54 \<le> 2 * round53 (n * 6305039478318694) div 2 ^ 54"
    by (rule div_le_mono)
  also have "2 * round53 (n * 6305039478318694) div 2 ^ 54 = round53 (n * 6305039478318694) div 2 ^ 53"
    by simp
  finally show ?thesis unfolding floor_mul_04_def floor_mul_07_def .
qed

text \<open>The rounding is real: at length 90 the window is one shorter than \<open>floor (63)\<close>.\<close>

lemma floor_mul_07_at_90: "floor_mul_07 90 = 62"
  by (simp add: floor_mul_07_def round53_def excess_bits.simps)

lemma floor_mul_07_at_8: "floor_mul_07 8 = 5"
  by (simp add: floor_mul_07_def round53_def excess_bits.simps)

section \<open>\<open>levenshteinDistance\<close> tabulates the prefix distances\<close>

lemma init_rows_eq: "init_rows str2 = map (\<lambda>i. [i]) [0..<Suc (length str2)]"
proof -
  have *: "fold (\<lambda>i matrix. put [] matrix i [i]) [0..<n] [] = map (\<lambda>i. [i]) [0..<n]" for n
    by (induction n) (simp_all add: put_def)
  show ?thesis unfolding init_rows_def by (rule *)
qed

lemma init_first_row_eq:
  assumes "m \<noteq> []" and "m ! 0 = [0]"
  shows "init_first_row str1 m = m[0 := [0..<Suc (length str1)]]"
proof -
  have *: "fold (\<lambda>j m. set_cell m 0 j j) [0..<Suc n] m = m[0 := [0..<Suc n]]" for n
  proof (induction n)
    case 0
    show ?case using assms by (simp add: set_cell_def put_def)
  next
    case (Suc n)
    have "fold (\<lambda>j m. set_cell m 0 j j) [0..<Suc (Suc n)] m
          = set_cell (fold (\<lambda>j m. set_cell m 0 j j) [0..<Suc n] m) 0 (Suc n) (Suc n)"
      by simp
    also have "\<dots> = set_cell (m[0 := [0..<Suc n]]) 0 (Suc n) (Suc n)"
      by (simp only: Suc.IH)
    also have "\<dots> = m[0 := [0..<Suc (Suc n)]]"
      using assms by (simp add: set_cell_def put_def)
    finally show ?case .
  qed
  show ?thesis unfolding init_first_row_def by (rule *)
qed

text \<open>
  One pass of the inner loop completes row \<open>i + 1\<close> from the finished row \<open>i\<close>. Every
  cell it reads has been written before, and every write lands one past the end of
  the row.
\<close>

lemma fill_row_eq:
  assumes i: "Suc i < length m"
    and prev: "m ! i = map (prefix_distance str1 str2 i) [0..<Suc (length str1)]"
    and cur: "m ! Suc i = [Suc i]"
  shows "fill_row str1 str2 (Suc i) m
         = m[Suc i := map (prefix_distance str1 str2 (Suc i)) [0..<Suc (length str1)]]"
proof -
  have *: "n \<le> length str1 \<Longrightarrow>
       fold (cell_step str1 str2 (Suc i)) [1..<Suc n] m
       = m[Suc i := map (prefix_distance str1 str2 (Suc i)) [0..<Suc n]]" for n
  proof (induction n)
    case 0
    have "m[Suc i := [Suc i]] = m" using cur by (metis list_update_id)
    then show ?case by simp
  next
    case (Suc n)
    let ?m' = "m[Suc i := map (prefix_distance str1 str2 (Suc i)) [0..<Suc n]]"
    have n: "n < length str1" using Suc.prems by simp
    have r1: "?m' ! i = map (prefix_distance str1 str2 i) [0..<Suc (length str1)]"
      using prev by simp
    have r2: "?m' ! Suc i = map (prefix_distance str1 str2 (Suc i)) [0..<Suc n]"
      using i by simp
    have a: "?m' ! i ! n = prefix_distance str1 str2 i n"
      unfolding r1 using n by (simp add: map_upt_Suc_nth del: upt_Suc)
    have b: "?m' ! i ! Suc n = prefix_distance str1 str2 i (Suc n)"
      unfolding r1 using n by (simp add: map_upt_Suc_nth del: upt_Suc)
    have c: "?m' ! Suc i ! n = prefix_distance str1 str2 (Suc i) n"
      unfolding r2 by (simp add: map_upt_Suc_nth del: upt_Suc)
    have len: "length (?m' ! Suc i) = Suc n" unfolding r2 by simp
    have step: "cell_step str1 str2 (Suc i) (Suc n) ?m'
          = m[Suc i := map (prefix_distance str1 str2 (Suc i)) [0..<Suc (Suc n)]]"
      using a b c len r2 i by (simp add: cell_step_def set_cell_def put_def)
    have "fold (cell_step str1 str2 (Suc i)) [1..<Suc (Suc n)] m
          = cell_step str1 str2 (Suc i) (Suc n) (fold (cell_step str1 str2 (Suc i)) [1..<Suc n] m)"
      by simp
    also have "\<dots> = cell_step str1 str2 (Suc i) (Suc n) ?m'"
      using Suc.IH n by simp
    finally show ?case using step by simp
  qed
  show ?thesis unfolding fill_row_def by (rule *) simp
qed

lemma partial_matrix_nth:
  "r \<le> length str2 \<Longrightarrow> partial_matrix str1 str2 k ! r =
     (if r \<le> k then map (prefix_distance str1 str2 r) [0..<Suc (length str1)] else [r])"
  unfolding partial_matrix_def by (rule map_upt_Suc_nth)

lemma length_partial_matrix: "length (partial_matrix str1 str2 k) = Suc (length str2)"
  by (simp add: partial_matrix_def)

lemma prefix_distance_row0: "map (prefix_distance str1 str2 0) [0..<n] = [0..<n]"
  by (rule map_idI) simp

lemma initial_matrix_eq:
  "init_first_row str1 (init_rows str2) = partial_matrix str1 str2 0"
proof -
  let ?m = "map (\<lambda>i. [i]) [0..<Suc (length str2)]"
  have ne: "?m \<noteq> []" by simp
  have z: "?m ! 0 = [0]" by (simp only: map_upt_Suc_nth [OF le0])
  have "init_first_row str1 (init_rows str2) = ?m[0 := [0..<Suc (length str1)]]"
    unfolding init_rows_eq by (rule init_first_row_eq [OF ne z])
  also have "\<dots> = partial_matrix str1 str2 0"
  proof (rule nth_equalityI)
    show "length (?m[0 := [0..<Suc (length str1)]]) = length (partial_matrix str1 str2 0)"
      by (simp add: length_partial_matrix)
  next
    fix r assume "r < length (?m[0 := [0..<Suc (length str1)]])"
    then have r: "r \<le> length str2" by simp
    show "?m[0 := [0..<Suc (length str1)]] ! r = partial_matrix str1 str2 0 ! r"
    proof (cases r)
      case 0
      then show ?thesis
        by (simp only: partial_matrix_nth [OF le0] prefix_distance_row0 nth_list_update_eq
            length_map length_upt) simp
    next
      case (Suc r')
      have "?m[0 := [0..<Suc (length str1)]] ! r = ?m ! r" using Suc by simp
      also have "\<dots> = [r]" using r by (simp only: map_upt_Suc_nth)
      finally show ?thesis using Suc r by (simp only: partial_matrix_nth) simp
    qed
  qed
  finally show ?thesis .
qed

lemma fill_matrix_steps:
  "k \<le> length str2 \<Longrightarrow>
     fold (fill_row str1 str2) [1..<Suc k] (partial_matrix str1 str2 0) = partial_matrix str1 str2 k"
proof (induction k)
  case 0
  show ?case by simp
next
  case (Suc k)
  let ?m = "partial_matrix str1 str2 k"
  let ?row = "map (prefix_distance str1 str2 (Suc k)) [0..<Suc (length str1)]"
  have k: "Suc k \<le> length str2" "k \<le> length str2" using Suc.prems by simp_all
  have i: "Suc k < length ?m" using k by (simp add: length_partial_matrix)
  have prev: "?m ! k = map (prefix_distance str1 str2 k) [0..<Suc (length str1)]"
    using k by (simp only: partial_matrix_nth) simp
  have cur: "?m ! Suc k = [Suc k]"
    using k by (simp only: partial_matrix_nth) simp
  have "fold (fill_row str1 str2) [1..<Suc (Suc k)] (partial_matrix str1 str2 0)
        = fill_row str1 str2 (Suc k) (fold (fill_row str1 str2) [1..<Suc k] (partial_matrix str1 str2 0))"
    by simp
  also have "\<dots> = fill_row str1 str2 (Suc k) ?m"
    using Suc.IH k by simp
  also have "\<dots> = ?m[Suc k := ?row]"
    by (rule fill_row_eq [OF i prev cur])
  also have "\<dots> = partial_matrix str1 str2 (Suc k)"
  proof (rule nth_equalityI)
    show "length (?m[Suc k := ?row]) = length (partial_matrix str1 str2 (Suc k))"
      by (simp add: length_partial_matrix)
  next
    fix r
    assume "r < length (?m[Suc k := ?row])"
    then have r: "r \<le> length str2" by (simp add: length_partial_matrix)
    show "?m[Suc k := ?row] ! r = partial_matrix str1 str2 (Suc k) ! r"
    proof (cases "r = Suc k")
      case True
      then show ?thesis using i k by (simp only: partial_matrix_nth nth_list_update_eq) simp
    next
      case False
      then have "?m[Suc k := ?row] ! r = ?m ! r" by simp
      then show ?thesis using False r by (simp only: partial_matrix_nth) auto
    qed
  qed
  finally show ?case .
qed

lemma levenshteinDistance_eq:
  "levenshteinDistance str1 str2 = prefix_distance str1 str2 (length str2) (length str1)"
proof -
  have "fill_matrix str1 str2 (init_first_row str1 (init_rows str2))
        = partial_matrix str1 str2 (length str2)"
    unfolding fill_matrix_def initial_matrix_eq by (rule fill_matrix_steps) simp
  then have "levenshteinDistance str1 str2
        = partial_matrix str1 str2 (length str2) ! length str2 ! length str1"
    by (simp only: levenshteinDistance_def)
  also have "\<dots> = map (prefix_distance str1 str2 (length str2)) [0..<Suc (length str1)] ! length str1"
    by (simp only: partial_matrix_nth [OF order_refl]) simp
  also have "\<dots> = prefix_distance str1 str2 (length str2) (length str1)"
    by (rule map_upt_Suc_nth) simp
  finally show ?thesis .
qed

lemma prefix_distance_sym: "prefix_distance a b i j = prefix_distance b a j i"
proof (induction a b i j rule: prefix_distance.induct)
  case (1 str1 str2 j)
  show ?case by (cases j) simp_all
next
  case (2 str1 str2 i)
  show ?case by simp
next
  case (3 str1 str2 i j)
  then show ?case by (auto simp: min.commute min.left_commute)
qed

lemma prefix_distance_le: "prefix_distance a b i j \<le> max i j"
proof (induction a b i j rule: prefix_distance.induct)
  case (3 str1 str2 i j)
  then show ?case by (auto simp: min_def max_def split: if_splits)
qed simp_all

lemma levenshteinDistance_sym: "levenshteinDistance a b = levenshteinDistance b a"
  by (simp only: levenshteinDistance_eq prefix_distance_sym [of a b])

lemma levenshteinDistance_le: "levenshteinDistance a b \<le> max (length a) (length b)"
  unfolding levenshteinDistance_eq using prefix_distance_le [of a b "length b" "length a"]
  by (simp add: max.commute)

section \<open>The match decision and the diagnostic pass\<close>

lemma decisionMatch_exact: "str_includes t w \<Longrightarrow> decisionMatch t w"
  by (simp add: decisionMatch_def)

text \<open>A word of at most five characters passes the decision by the exact layer only.\<close>

lemma decisionMatch_short: "length w \<le> 5 \<Longrightarrow> decisionMatch t w = str_includes t w"
  by (simp add: decisionMatch_def Let_def)

lemma decisionMatch_window:
  assumes "5 < length w"
    and "int i \<le> int (length w) - int (max 5 (floor_mul_07 (length w)))"
    and "str_includes t (take (max 5 (floor_mul_07 (length w))) (drop i w))"
  shows "decisionMatch t w"
  using assms
  by (auto simp: decisionMatch_def Let_def list_ex_iff loop_indices_iff substring_window)

lemma decision_imp_diagnostic:
  assumes "decisionMatch t w"
  shows "diagnosticMatch t w"
proof (cases "str_includes t w")
  case True
  then show ?thesis by (simp add: diagnosticMatch_def)
next
  case False
  let ?n = "length w"
  let ?m1 = "max 5 (floor_mul_07 ?n)"
  let ?m2 = "max 3 (floor_mul_06 ?n)"
  let ?sim = "list_ex (\<lambda>searchWord. length searchWord > 3 \<and>
                 calculateSimilarity w searchWord \<ge> FUZZY_THRESHOLD) (split_space t)"
  from assms False have long: "5 < ?n"
    by (simp add: decisionMatch_def Let_def split: if_splits)
  from assms False long have
    "list_ex (\<lambda>i. str_includes t (substring w i (i + ?m1))) (loop_indices (int ?n - int ?m1)) \<or> ?sim"
    by (simp add: decisionMatch_def Let_def split: if_splits)
  then show ?thesis
  proof
    assume "list_ex (\<lambda>i. str_includes t (substring w i (i + ?m1))) (loop_indices (int ?n - int ?m1))"
    then obtain i where i: "int i \<le> int ?n - int ?m1"
      and win: "str_includes t (take ?m1 (drop i w))"
      by (auto simp: list_ex_iff loop_indices_iff substring_window)
    have m: "?m2 \<le> ?m1" using floor_mul_06_le_07 [of ?n] by (simp add: max_def)
    have f: "floor_mul_04 ?n \<le> ?m1" using floor_mul_04_le_07 [of ?n] by (simp add: max_def)
    have "int i \<le> int ?n - int (floor_mul_04 ?n)" using i f by linarith
    moreover have "str_includes t (take ?m2 (drop i w))"
      by (rule str_includes_shorter_window [OF win m])
    ultimately have
      "list_ex (\<lambda>i. str_includes t (substring w i (i + ?m2)))
         (loop_indices (int ?n - int (floor_mul_04 ?n)))"
      by (auto simp: list_ex_iff loop_indices_iff substring_window)
    then show ?thesis using long by (simp add: diagnosticMatch_def Let_def)
  next
    assume ?sim
    then show ?thesis using long by (simp add: diagnosticMatch_def Let_def)
  qed
qed

section \<open>The formatter as concatenation\<close>

lemma fold_formatVariant:
  "fold (formatVariant f) vs r = r @ concat (map (variant_line f) vs)"
  by (induction vs arbitrary: r) (simp_all add: formatVariant_def variant_line_def Let_def)

lemma formatProduct_eq: "formatProduct f p r = r @ product_block f p"
  by (simp add: formatProduct_def product_block_def fold_formatVariant Let_def split: option.splits)

lemma fold_formatProduct:
  "fold (formatProduct f) ps r = r @ concat (map (product_block f) ps)"
  by (induction ps arbitrary: r) (simp_all add: formatProduct_eq)

section \<open>Concrete evaluations\<close>

lemma searchText_ruby: "searchText ruby_gemstone = ''ruby gemstone ''"
  by code_simp

lemma searchText_amethyst: "searchText amethyst_beads = ''amethyst round beads ''"
  by code_simp

lemma levenshtein_rubby: "levenshteinDistance ''rubby'' ''ruby'' = 1"
  by (simp add: levenshteinDistance_eq charAt_def)

lemma similarity_rubby: "calculateSimilarity ''rubby'' ''ruby'' = 4 / 5"
  by (simp add: calculateSimilarity_def levenshtein_rubby)

text \<open>
  The block of the specification's example: the price with two decimals and the stock
  annotation.
\<close>

lemma ruby_block:
  "product_block decimal_column_text ruby_gemstone =
     gem_marker @ '' Ruby Gemstone'' @ newline @
     ''   '' @ bullet_marker @ '' Standard: $12.50 (In Stock - 5 left)'' @ newline @ newline"
  by code_simp

section \<open>The claims\<close>

text \<open>
  Claim C1. In the match decision, every search token longer than 4 characters gets the
  similarity layer: the haystack is split, every haystack word longer than 3 characters
  is scored against the token, and a score of at least 0.6 makes the product match.

  The code does not do this for a token of exactly 5 characters: the similarity loop,
  with its own guard \<open>wordLength > 4\<close>, sits inside the branch \<open>wordLength > 5\<close>. The token
  \<open>rubby\<close> scores 0.8 against the haystack word \<open>ruby\<close> of the product "Ruby Gemstone",
  and the filter drops the product.
\<close>

theorem similarity_layer_skipped_at_length_5:
  "length ''rubby'' = 5 \<and>
   ''ruby'' \<in> set (split_space (searchText ruby_gemstone)) \<and>
   3 < length ''ruby'' \<and>
   FUZZY_THRESHOLD \<le> calculateSimilarity ''rubby'' ''ruby'' \<and>
   filterProductsWithFuzzy (Arr [ruby_gemstone]) (Arr [''rubby'']) = []"
  by (simp add: searchText_ruby similarity_rubby FUZZY_THRESHOLD_def filterProductsWithFuzzy_def
      matchProduct_def Let_def decisionMatch_short)

text \<open>
  The filter itself has no length test: its exact-substring layer accepts a token of any
  length, so a short token handed to it directly can bring in a product. The token list
  is kept free of such tokens by the handler, not by the filter.
\<close>

lemma exact_layer_accepts_short_token:
  "filterProductsWithFuzzy (Arr [ruby_gemstone]) (Arr [''opal'', ''ru'']) = [ruby_gemstone] \<and>
   filterProductsWithFuzzy (Arr [ruby_gemstone]) (Arr [''opal'']) = []"
  by (simp add: filterProductsWithFuzzy_def matchProduct_def Let_def searchText_ruby
      decisionMatch_short)

lemma searchWordsOf_long: "word \<in> set (searchWordsOf correctedText) \<Longrightarrow> 2 < length word"
  by (simp add: searchWordsOf_def dropShortWords_def)

text \<open>
  On the query text itself: a further word of at most 2 characters at the end of the
  corrected text leaves the search words of the handler unchanged.
\<close>

lemma split_space_nonempty: "split_space s \<noteq> []"
  by (induction s) (simp_all add: Let_def)

lemma split_space_append:
  "split_space (a @ CHR '' '' # b) = split_space a @ split_space b"
proof (induction a)
  case Nil
  show ?case by simp
next
  case (Cons c cs)
  show ?case
  proof (cases "c = CHR '' ''")
    case True
    then show ?thesis using Cons by simp
  next
    case False
    then show ?thesis using Cons split_space_nonempty [of cs]
      by (cases "split_space cs") (simp_all add: Let_def)
  qed
qed

lemma split_space_single: "CHR '' '' \<notin> set w \<Longrightarrow> split_space w = [w]"
  by (induction w) (auto simp: Let_def)

lemma lower_char_space: "lower_char c = CHR '' '' \<longleftrightarrow> c = CHR '' ''"
proof
  assume h: "lower_char c = CHR '' ''"
  show "c = CHR '' ''"
  proof (cases "65 \<le> (of_char c :: nat) \<and> (of_char c :: nat) \<le> 90")
    case True
    then have "lower_char c = char_of ((of_char c :: nat) + 32)" by (simp add: lower_char_def)
    then have "(of_char (lower_char c) :: nat) = ((of_char c :: nat) + 32) mod 256"
      by simp
    moreover have "(of_char (CHR '' '') :: nat) = 32" by simp
    ultimately show ?thesis using h True by simp
  next
    case False
    then show ?thesis using h by (auto simp: lower_char_def Let_def)
  qed
next
  assume "c = CHR '' ''"
  then show "lower_char c = CHR '' ''" by (simp add: lower_char_def)
qed

lemma searchWordsOf_appended_short_word:
  assumes "length w \<le> 2" and "CHR '' '' \<notin> set w"
  shows "searchWordsOf (correctedText @ '' '' @ w) = searchWordsOf correctedText"
proof -
  have sp: "lower_char (CHR '' '') = CHR '' ''" by (simp add: lower_char_space)
  have "CHR '' '' \<notin> set (toLowerCase w)"
  proof
    assume "CHR '' '' \<in> set (toLowerCase w)"
    then obtain c where c: "c \<in> set w" "lower_char c = CHR '' ''"
      by (auto simp: toLowerCase_def)
    then have "c = CHR '' ''" by (simp only: lower_char_space)
    then show False using c(1) assms(2) by simp
  qed
  then have "split_space (toLowerCase w) = [toLowerCase w]" by (rule split_space_single)
  then have "split_space (toLowerCase (correctedText @ '' '' @ w))
        = split_space (toLowerCase correctedText) @ [toLowerCase w]"
    by (simp add: toLowerCase_def sp split_space_append)
  moreover have "length (toLowerCase w) \<le> 2" using assms(1) by (simp add: toLowerCase_def)
  ultimately show ?thesis by (simp add: searchWordsOf_def dropShortWords_def)
qed



text \<open>
  Claim C3. Exact substring match is sufficient: for a non-empty token list, a product of
  the list whose haystack contains some token verbatim is in the output of the filter,
  whatever the other layers and the similarity threshold say.
\<close>

theorem exact_substring_sufficient:
  assumes "ws \<noteq> []" and "w \<in> set ws" and "p \<in> set ps"
    and "str_includes (searchText p) w"
  shows "p \<in> set (filterProductsWithFuzzy (Arr ps) (Arr ws))"
proof -
  have "list_ex (decisionMatch (searchText p)) ws"
    using assms(2,4) by (auto simp: list_ex_iff intro: decisionMatch_exact)
  then show ?thesis using assms(1,3)
    by (simp add: filterProductsWithFuzzy_def matchProduct_def Let_def)
qed

theorem exact_substring_sufficient_witness:
  "[''ruby''] \<noteq> [] \<and> ''ruby'' \<in> set [''ruby''] \<and> ruby_gemstone \<in> set [ruby_gemstone] \<and>
   str_includes (searchText ruby_gemstone) ''ruby'' \<and>
   ruby_gemstone \<in> set (filterProductsWithFuzzy (Arr [ruby_gemstone]) (Arr [''ruby'']))"
proof -
  have h: "str_includes (searchText ruby_gemstone) ''ruby''"
    by (simp add: searchText_ruby)
  show ?thesis
    using h exact_substring_sufficient [of "[''ruby'']" "''ruby''" ruby_gemstone "[ruby_gemstone]"]
    by simp
qed

text \<open>
  Claim C4. The filter is stable: its output is a subsequence of the input list, so it
  keeps the relative order of the catalogue and adds no element.
\<close>

theorem filter_output_subseq:
  "subseq (filterProductsWithFuzzy (Arr ps) searchWords) ps"
  by (cases searchWords) (simp_all add: filterProductsWithFuzzy_def subseq_take_self)

text \<open>
  Claim C5. With an empty token list the filter returns the first 20 products of the
  input in their order (all of them when there are fewer), without any matching.
\<close>

theorem empty_tokens_first_20:
  "filterProductsWithFuzzy (Arr ps) (Arr []) = take 20 ps"
  by (simp add: filterProductsWithFuzzy_def)

text \<open>
  Claim C6. \<open>calculateSimilarity a b\<close> lies in the closed interval from 0 to 1; it is 1
  when both strings are empty, and otherwise it is
  \<open>(max (length a) (length b) - levenshteinDistance a b) / max (length a) (length b)\<close>.
  (The code measures the distance from the longer to the shorter string; the distance
  is symmetric.)
\<close>

theorem calculateSimilarity_bounds:
  "0 \<le> calculateSimilarity a b \<and> calculateSimilarity a b \<le> 1 \<and>
   (a = [] \<and> b = [] \<longrightarrow> calculateSimilarity a b = 1) \<and>
   (a \<noteq> [] \<or> b \<noteq> [] \<longrightarrow>
      calculateSimilarity a b =
        (of_nat (max (length a) (length b)) - of_nat (levenshteinDistance a b)) /
        of_nat (max (length a) (length b)))"
proof -
  let ?L = "max (length a) (length b)"
  let ?d = "levenshteinDistance a b"
  have d: "?d \<le> ?L" by (rule levenshteinDistance_le)
  have eq: "?L \<noteq> 0 \<Longrightarrow>
      calculateSimilarity a b = (of_nat ?L - of_nat ?d) / of_nat ?L"
    using levenshteinDistance_sym [of a b]
    by (auto simp: calculateSimilarity_def Let_def max_def)
  have empty: "?L = 0 \<Longrightarrow> calculateSimilarity a b = 1"
    by (simp add: calculateSimilarity_def)
  have lo: "0 \<le> calculateSimilarity a b"
  proof (cases "?L = 0")
    case True then show ?thesis using empty by simp
  next
    case False
    have "(of_nat ?d :: rat) \<le> of_nat ?L" using d by (simp only: of_nat_le_iff)
    then have "(0::rat) \<le> (of_nat ?L - of_nat ?d) / of_nat ?L" by simp
    then show ?thesis by (simp only: eq [OF False])
  qed
  have hi: "calculateSimilarity a b \<le> 1"
  proof (cases "?L = 0")
    case True then show ?thesis using empty by simp
  next
    case False
    have "(of_nat ?L - of_nat ?d :: rat) \<le> of_nat ?L" by simp
    moreover have "(0::rat) < of_nat ?L" using False by (simp only: of_nat_0_less_iff)
    ultimately have "(of_nat ?L - of_nat ?d) / (of_nat ?L :: rat) \<le> 1"
      by (simp add: divide_le_eq)
    then show ?thesis by (simp only: eq [OF False])
  qed
  have e1: "a = [] \<and> b = [] \<longrightarrow> calculateSimilarity a b = 1"
  proof
    assume "a = [] \<and> b = []"
    then have "?L = 0" by simp
    then show "calculateSimilarity a b = 1" by (rule empty)
  qed
  have e2: "a \<noteq> [] \<or> b \<noteq> [] \<longrightarrow>
      calculateSimilarity a b = (of_nat ?L - of_nat ?d) / of_nat ?L"
  proof
    assume "a \<noteq> [] \<or> b \<noteq> []"
    then have "?L \<noteq> 0" by (auto simp: max_def)
    then show "calculateSimilarity a b = (of_nat ?L - of_nat ?d) / of_nat ?L" by (rule eq)
  qed
  show ?thesis by (intro conjI lo hi e1 e2)
qed

theorem calculateSimilarity_bounds_witness:
  "''rubby'' \<noteq> [] \<and>
   0 \<le> calculateSimilarity ''rubby'' ''ruby'' \<and> calculateSimilarity ''rubby'' ''ruby'' \<le> 1 \<and>
   calculateSimilarity ''rubby'' ''ruby'' = (5 - of_nat (levenshteinDistance ''rubby'' ''ruby'')) / 5 \<and>
   calculateSimilarity [] [] = 1"
  using calculateSimilarity_bounds [of "''rubby''" "''ruby''"] calculateSimilarity_bounds [of "[]" "[]"]
  by simp

text \<open>
  Claim C7. For a non-empty list of \<open>N\<close> products the formatted string is: the header
  with the full count \<open>N\<close>; the blocks of the first 20 products only, each with at most
  its first 3 variants; when \<open>N > 20\<close>, the suffix that reports exactly \<open>N - 20\<close> more
  products; the call to action. (For \<open>N = 57\<close> the suffix reports 37: see the instance
  below.)
\<close>

theorem formatProductResponse_capped:
  assumes "ps \<noteq> []"
  shows "formatProductResponse toFixed2 (Arr ps) searchWords =
     ''Found '' @ show_nat (length ps) @ '' product(s) for you:'' @ newline @ newline @
     concat (map (product_block toFixed2) (take 20 ps)) @
     (if 20 < length ps
      then ''... and '' @ show_nat (length ps - 20) @ '' more products available!'' @ newline
      else []) @
     call_to_action"
  using assms by (simp add: formatProductResponse_def fold_formatProduct Let_def)

theorem formatProductResponse_capped_witness:
  "replicate 57 ruby_gemstone \<noteq> [] \<and>
   formatProductResponse decimal_column_text (Arr (replicate 57 ruby_gemstone)) (Arr [''ruby'']) =
     ''Found 57 product(s) for you:'' @ newline @ newline @
     concat (replicate 20 (product_block decimal_column_text ruby_gemstone)) @
     ''... and 37 more products available!'' @ newline @ call_to_action"
proof -
  have h: "replicate 57 ruby_gemstone \<noteq> []" by simp
  have s: "show_nat 57 = ''57''" "show_nat 37 = ''37''"
    by code_simp+
  show ?thesis
    using formatProductResponse_capped [OF h, of decimal_column_text "Arr [''ruby'']"]
    by (simp add: s)
qed

text \<open>
  Claim C8, as stated: the formatted string ends with the call to action for every
  product list, the empty result included. It fails on the empty result, where the
  function returns the not-found message and nothing after it.
\<close>

theorem no_call_to_action_when_nothing_found:
  "\<not> suffix call_to_action (formatProductResponse decimal_column_text (Arr []) (Arr [''ruby'']))"
  by (simp add: formatProductResponse_def notFoundMessage_def call_to_action_def quote_mark_def
      suffix_to_prefix)

text \<open>
  Claim C8, amended: for every non-empty product list and every token list, the
  formatted string ends with the call to action.
\<close>

theorem call_to_action_when_found:
  "ps \<noteq> [] \<Longrightarrow> suffix call_to_action (formatProductResponse toFixed2 (Arr ps) searchWords)"
  by (simp add: formatProductResponse_def Let_def suffix_def)

theorem call_to_action_when_found_witness:
  "[ruby_gemstone] \<noteq> [] \<and>
   suffix call_to_action
     (formatProductResponse decimal_column_text (Arr [ruby_gemstone]) (Arr [''ruby'']))"
  using call_to_action_when_found [of "[ruby_gemstone]" decimal_column_text "Arr [''ruby'']"]
  by simp

text \<open>
  Claim C9. When the products argument is not an array, the filter returns the empty
  list, for every token argument.
\<close>

theorem not_array_gives_empty:
  "filterProductsWithFuzzy NotArray searchWords = []"
  by (simp add: filterProductsWithFuzzy_def)

text \<open>
  Claim C10. The diagnostic pass is at least as lenient as the match decision: a token
  that passes the decision passes the diagnostic test, and so, whenever the decision
  \<open>hasMatch\<close> is positive for a product, the recomputed list \<open>matchedWords\<close> is not
  empty.
\<close>

theorem diagnostic_pass_at_least_as_lenient:
  "(decisionMatch t w \<longrightarrow> diagnosticMatch t w) \<and>
   (fst (matchProduct p ws) \<longrightarrow> (\<exists>mw. snd (matchProduct p ws) = Some mw \<and> mw \<noteq> []))"
proof (intro conjI impI)
  assume "decisionMatch t w" then show "diagnosticMatch t w" by (rule decision_imp_diagnostic)
next
  assume "fst (matchProduct p ws)"
  then have h: "list_ex (decisionMatch (searchText p)) ws" by (simp add: matchProduct_def Let_def)
  then obtain x where "x \<in> set ws" "decisionMatch (searchText p) x" by (auto simp: list_ex_iff)
  then have "x \<in> set (filter (diagnosticMatch (searchText p)) ws)"
    by (simp add: decision_imp_diagnostic)
  then have "filter (diagnosticMatch (searchText p)) ws \<noteq> []" by (metis empty_iff list.set(1))
  then show "\<exists>mw. snd (matchProduct p ws) = Some mw \<and> mw \<noteq> []"
    using h by (simp add: matchProduct_def Let_def)
qed

theorem diagnostic_pass_at_least_as_lenient_witness:
  "decisionMatch (searchText amethyst_beads) ''amethist'' \<and>
   diagnosticMatch (searchText amethyst_beads) ''amethist'' \<and>
   fst (matchProduct amethyst_beads [''amethist'']) \<and>
   (\<exists>mw. snd (matchProduct amethyst_beads [''amethist'']) = Some mw \<and> mw \<noteq> [])"
proof -
  have len: "length ''amethist'' = 8" by simp
  have win: "max 5 (floor_mul_07 (length ''amethist'')) = 5"
    by (simp only: len floor_mul_07_at_8 max.idem)
  have d: "decisionMatch (searchText amethyst_beads) ''amethist''"
  proof (rule decisionMatch_window [where i = 0])
    show "5 < length ''amethist''" by simp
    show "int 0 \<le> int (length ''amethist'') - int (max 5 (floor_mul_07 (length ''amethist'')))"
      unfolding win by simp
    show "str_includes (searchText amethyst_beads)
            (take (max 5 (floor_mul_07 (length ''amethist''))) (drop 0 ''amethist''))"
      unfolding win searchText_amethyst by simp
  qed
  then have m: "fst (matchProduct amethyst_beads [''amethist''])"
    by (simp add: matchProduct_def Let_def)
  show ?thesis
    using d m diagnostic_pass_at_least_as_lenient
      [of "searchText amethyst_beads" "''amethist''" amethyst_beads "[''amethist'']"]
    by simp
qed

end
